theory Spec2Isabelle
  imports Main "HOL-Library.Word"
begin

section \<open>BLE credential provisioning: the parser\<close>

text \<open>
  The module \<^verbatim>\<open>provisioning.cpp\<close> receives one characteristic write holding the Wi-Fi
  credentials, parses it and hands the result to the application. A payload is a
  \<^verbatim>\<open>std::string\<close>: a sequence of bytes, any byte allowed. An Arduino \<^verbatim>\<open>String\<close> is modelled
  by the bytes it holds.
\<close>

abbreviation CR :: char where "CR \<equiv> CHR 0x0D"
abbreviation LF :: char where "LF \<equiv> CHR 0x0A"
abbreviation TAB :: char where "TAB \<equiv> CHR 0x09"
abbreviation NUL :: char where "NUL \<equiv> CHR 0x00"

text \<open>\<^verbatim>\<open>struct ParsedCredentials\<close>, with its default member values.\<close>

record ParsedCredentials =
  valid :: bool
  ssid :: string
  password :: string
  error :: string

definition result0 :: ParsedCredentials where
  "result0 = \<lparr>valid = False, ssid = [], password = [], error = []\<rparr>"

definition isWhitespace :: "char \<Rightarrow> bool" where
  "isWhitespace c = (c = CR \<or> c = LF \<or> c = TAB \<or> c = CHR '' '')"

text \<open>The first loop of \<^verbatim>\<open>trim\<close>: erase the front character while it is whitespace.\<close>

fun trim_front :: "string \<Rightarrow> string" where
  "trim_front [] = []"
| "trim_front (c # cs) = (if isWhitespace c then trim_front cs else c # cs)"

text \<open>The second loop of \<^verbatim>\<open>trim\<close>: \<^verbatim>\<open>pop_back\<close> while the last character is whitespace.\<close>

function trim_back :: "string \<Rightarrow> string" where
  "trim_back text =
     (if text \<noteq> [] \<and> isWhitespace (last text) then trim_back (butlast text) else text)"
  by pat_completeness auto
termination
  by (relation "measure length") auto

declare trim_back.simps [simp del]

definition trim :: "string \<Rightarrow> string" where
  "trim text = trim_back (trim_front text)"

text \<open>
  \<^verbatim>\<open>std::string::find(char)\<close>: the index of the first occurrence, \<open>None\<close> for
  \<^verbatim>\<open>npos\<close>.
\<close>

fun find_char :: "char \<Rightarrow> string \<Rightarrow> nat option" where
  "find_char c [] = None"
| "find_char c (x # xs) = (if x = c then Some 0 else map_option Suc (find_char c xs))"

text \<open>
  \<^verbatim>\<open>String(s.c_str())\<close>: an Arduino \<^verbatim>\<open>String\<close> built from a C string holds the bytes
  before the first NUL byte.
\<close>

definition c_str :: "string \<Rightarrow> string" where
  "c_str s = takeWhile (\<lambda>c. c \<noteq> NUL) s"

text \<open>The erase-remove idiom on \<^verbatim>\<open>'\r'\<close>.\<close>

definition remove_cr :: "string \<Rightarrow> string" where
  "remove_cr payload = filter (\<lambda>c. c \<noteq> CR) payload"

text \<open>
  Lines 59 to 62: look for the first newline, and for the first \<^verbatim>\<open>'|'\<close> only when
  \<^verbatim>\<open>find\<close> returned \<^verbatim>\<open>npos\<close>.
\<close>

definition find_separator :: "string \<Rightarrow> nat option" where
  "find_separator payload =
     (case find_char LF payload of
        None \<Rightarrow> find_char (CHR ''|'') payload
      | Some i \<Rightarrow> Some i)"

definition parseCredentials :: "string \<Rightarrow> ParsedCredentials" where
  "parseCredentials raw =
     (if raw = [] then result0\<lparr>error := ''vacio''\<rparr>
      else
        let payload = remove_cr raw;
            separator = find_separator payload
        in case separator of
             None \<Rightarrow> result0\<lparr>error := ''formato''\<rparr>
           | Some sep \<Rightarrow>
               let ssid_part = trim (take sep payload);
                   password_part = trim (drop (sep + 1) payload)
               in if ssid_part = [] then result0\<lparr>error := ''ssid''\<rparr>
                  else result0\<lparr>valid := True, ssid := c_str ssid_part,
                                password := c_str password_part\<rparr>)"

section \<open>The session and the BLE stack\<close>

text \<open>
  The file-scope variables of the module are the fields of one record. The BLE stack is
  outside the module: every call the module makes into it is appended to \<open>ble_calls\<close>,
  in program order, and what the stack answers is an input. A pointer is modelled by
  whether it is non-null. \<^verbatim>\<open>BLEDevice::createServer\<close>, \<^verbatim>\<open>createService\<close> and
  \<^verbatim>\<open>createCharacteristic\<close> are dereferenced unchecked by the module and give an object;
  \<^verbatim>\<open>BLEDevice::getAdvertising\<close> is checked by the module and may give null: the field
  \<open>stack_advertising\<close> says whether it gives an object. A connection id is the
  \<^verbatim>\<open>uint16_t\<close> the stack reports. A \<^verbatim>\<open>CredentialsCallback\<close> is modelled by a number
  naming the application function it holds, \<open>None\<close> when it is empty; invoking it is
  a recorded call, and what the application does inside it is outside the module.
\<close>

type_synonym conn_id = "16 word"

type_synonym callback = nat

definition kServiceUuid :: string where
  "kServiceUuid = ''12345678-1234-1234-1234-1234567890ab''"

definition kCharacteristicUuid :: string where
  "kCharacteristicUuid = ''87654321-4321-4321-4321-0987654321ba''"

definition kInvalidConnId :: conn_id where
  "kInvalidConnId = 0xFFFF"

datatype ble_call =
    DeviceInit string
  | CreateServer
  | ServerSetCallbacks
  | CreateService string
  | CreateCharacteristic string
  | AddDescriptor
  | CharacteristicSetCallbacks
  | SetValue string
  | Notify
  | ServiceStart
  | AddServiceUUID string
  | SetAdvertisementData string string
  | SetScanResponse bool
  | SetMinPreferred nat
  | SetMaxPreferred nat
  | AdvertisingStart
  | AdvertisingStop
  | ServerDisconnect conn_id
  | InvokeCallback callback string string

record session =
  g_server :: bool
  g_characteristic :: bool
  g_advertising :: bool
  g_callback :: "callback option"
  g_deviceId :: string
  g_initialized :: bool
  g_sessionActive :: bool
  g_centralConnected :: bool
  g_connId :: conn_id
  g_restartAdvertising :: bool
  stack_advertising :: bool
  ble_calls :: "ble_call list"

text \<open>The variables as their initialisers leave them, before any call.\<close>

definition initial :: session where
  "initial = \<lparr>g_server = False, g_characteristic = False, g_advertising = False,
     g_callback = None, g_deviceId = [], g_initialized = False, g_sessionActive = False,
     g_centralConnected = False, g_connId = kInvalidConnId, g_restartAdvertising = False,
     stack_advertising = True, ble_calls = []\<rparr>"

definition calls :: "ble_call list \<Rightarrow> session \<Rightarrow> session" where
  "calls cs s = s\<lparr>ble_calls := ble_calls s @ cs\<rparr>"

definition notify :: "string \<Rightarrow> session \<Rightarrow> session" where
  "notify message s =
     (if \<not> g_characteristic s then s
      else
        let s1 = calls [SetValue (c_str message)] s
        in if g_centralConnected s1 then calls [Notify] s1 else s1)"

text \<open>
  \<^verbatim>\<open>ProvisioningCallbacks::onWrite\<close>; \<open>written\<close> is what
  \<^verbatim>\<open>characteristic->getValue()\<close> returns, the payload the peer wrote.
\<close>

definition onWrite :: "string \<Rightarrow> session \<Rightarrow> session" where
  "onWrite written s =
     (let credentials = parseCredentials written
      in if \<not> valid credentials then notify (''error:'' @ error credentials) s
         else
           let s1 = notify ''credenciales'' s
           in case g_callback s1 of
                None \<Rightarrow> s1
              | Some f \<Rightarrow>
                  calls [InvokeCallback f (ssid credentials) (password credentials)] s1)"

text \<open>
  \<^verbatim>\<open>ServerCallbacks\<close>; \<open>connId\<close> is what \<^verbatim>\<open>server->getConnId()\<close> returns.
\<close>

definition onConnect :: "conn_id \<Rightarrow> session \<Rightarrow> session" where
  "onConnect connId s = s\<lparr>g_centralConnected := True, g_connId := connId\<rparr>"

definition onDisconnect :: "session \<Rightarrow> session" where
  "onDisconnect s =
     (let s1 = s\<lparr>g_centralConnected := False, g_connId := kInvalidConnId\<rparr>
      in if g_sessionActive s1 then s1\<lparr>g_restartAdvertising := True\<rparr> else s1)"

definition configureAdvertising :: "session \<Rightarrow> session" where
  "configureAdvertising s =
     (let s1 = (if \<not> g_advertising s then s\<lparr>g_advertising := stack_advertising s\<rparr> else s)
      in if \<not> g_advertising s1 then s1
         else calls [SetAdvertisementData (c_str (g_deviceId s1)) kServiceUuid,
                     SetScanResponse False, SetMinPreferred 0x06, SetMaxPreferred 0x12] s1)"

definition ensureInitialized :: "string \<Rightarrow> session \<Rightarrow> session" where
  "ensureInitialized deviceId s =
     (if g_initialized s then configureAdvertising (s\<lparr>g_deviceId := deviceId\<rparr>)
      else
        let s1 = s\<lparr>g_deviceId := deviceId\<rparr>;
            s2 = (calls [DeviceInit (c_str (g_deviceId s1)), CreateServer] s1)
                   \<lparr>g_server := True\<rparr>;
            s3 = (calls [ServerSetCallbacks, CreateService kServiceUuid,
                         CreateCharacteristic kCharacteristicUuid] s2)
                   \<lparr>g_characteristic := True\<rparr>;
            s4 = calls [AddDescriptor, CharacteristicSetCallbacks, SetValue ''inactivo'',
                        ServiceStart] s3;
            s5 = s4\<lparr>g_advertising := stack_advertising s4\<rparr>;
            s6 = (if g_advertising s5 then calls [AddServiceUUID kServiceUuid] s5 else s5);
            s7 = configureAdvertising s6
        in s7\<lparr>g_initialized := True\<rparr>)"

text \<open>\<^verbatim>\<open>Provisioning::begin\<close> (\<open>begin\<close> is a keyword of the theory language).\<close>

definition begin_session :: "string \<Rightarrow> callback option \<Rightarrow> session \<Rightarrow> session" where
  "begin_session deviceId callback s =
     notify ''inactivo'' (ensureInitialized deviceId (s\<lparr>g_callback := callback\<rparr>))"

definition startBle :: "session \<Rightarrow> bool \<times> session" where
  "startBle s =
     (if \<not> g_initialized s \<or> \<not> g_advertising s then (False, s)
      else
        let s1 = configureAdvertising s;
            s2 = calls [AdvertisingStart] s1;
            s3 = notify ''activo'' s2
        in (True, s3\<lparr>g_sessionActive := True, g_restartAdvertising := False\<rparr>))"

definition stopBle :: "session \<Rightarrow> session" where
  "stopBle s =
     (if \<not> g_initialized s then s
      else
        let s1 = (if g_advertising s then calls [AdvertisingStop] s else s);
            s2 = (if g_centralConnected s1 \<and> g_server s1 \<and> g_connId s1 \<noteq> kInvalidConnId
                  then calls [ServerDisconnect (g_connId s1)] s1 else s1);
            s3 = s2\<lparr>g_sessionActive := False, g_restartAdvertising := False\<rparr>
        in notify ''inactivo'' s3)"

definition isActive :: "session \<Rightarrow> bool" where
  "isActive s = g_sessionActive s"

definition notifyStatus :: "string \<Rightarrow> session \<Rightarrow> session" where
  "notifyStatus message s = notify message s"

definition loop :: "session \<Rightarrow> session" where
  "loop s =
     (if g_restartAdvertising s \<and> g_sessionActive s \<and> g_advertising s
      then calls [AdvertisingStart] (s\<lparr>g_restartAdvertising := False\<rparr>)
      else s)"

text \<open>
  What can happen to a session: a call of one of the module's functions by the
  application, a handler invoked by the stack, or the stack's advertising object
  becoming available or unavailable. A history is a list of such events, run from left
  to right.
\<close>

datatype event =
    Begin string "callback option"
  | StartBle
  | StopBle
  | Loop
  | NotifyStatus string
  | OnConnect conn_id
  | OnDisconnect
  | OnWrite string
  | StackAdvertising bool

fun step :: "event \<Rightarrow> session \<Rightarrow> session" where
  "step (Begin deviceId callback) s = begin_session deviceId callback s"
| "step StartBle s = snd (startBle s)"
| "step StopBle s = stopBle s"
| "step Loop s = loop s"
| "step (NotifyStatus message) s = notifyStatus message s"
| "step (OnConnect connId) s = onConnect connId s"
| "step OnDisconnect s = onDisconnect s"
| "step (OnWrite written) s = onWrite written s"
| "step (StackAdvertising b) s = s\<lparr>stack_advertising := b\<rparr>"

fun run :: "event list \<Rightarrow> session \<Rightarrow> session" where
  "run [] s = s"
| "run (e # es) s = run es (step e s)"

text \<open>
  Two facts that hold after every history: an active session is initialized and has its
  advertising object, and an initialized session has its server and characteristic.
\<close>

definition session_inv :: "session \<Rightarrow> bool" where
  "session_inv s =
     ((g_sessionActive s \<longrightarrow> g_initialized s \<and> g_advertising s) \<and>
      (g_initialized s \<longrightarrow> g_server s \<and> g_characteristic s))"

text \<open>No connect event of the history reported the id the module uses for no connection.\<close>

definition connect_ids_valid :: "event list \<Rightarrow> bool" where
  "connect_ids_valid evs = (OnConnect kInvalidConnId \<notin> set evs)"

section \<open>Properties of the parser\<close>

subsection \<open>The loops of trim and find, in closed form\<close>

lemma trim_front_eq: "trim_front xs = dropWhile isWhitespace xs"
  by (induction xs) auto

lemma trim_back_eq: "trim_back xs = rev (dropWhile isWhitespace (rev xs))"
proof (induction xs rule: trim_back.induct)
  case (1 t)
  show ?case
  proof (cases "t \<noteq> [] \<and> isWhitespace (last t)")
    case True
    then obtain ys y where t: "t = ys @ [y]" and w: "isWhitespace y"
      by (metis append_butlast_last_id last_snoc)
    from True 1 have "trim_back (butlast t) = rev (dropWhile isWhitespace (rev (butlast t)))"
      by blast
    with t w show ?thesis
      by (subst trim_back.simps) simp
  next
    case False
    then show ?thesis
      by (subst trim_back.simps) (cases t rule: rev_cases; auto)
  qed
qed

lemma trim_eq: "trim xs = rev (dropWhile isWhitespace (rev (dropWhile isWhitespace xs)))"
  by (simp add: trim_def trim_front_eq trim_back_eq)

lemma trim_empty_iff: "trim xs = [] \<longleftrightarrow> (\<forall>c\<in>set xs. isWhitespace c)"
proof
  assume "trim xs = []"
  then have "dropWhile isWhitespace (rev (dropWhile isWhitespace xs)) = []"
    by (simp add: trim_eq)
  then have "\<forall>c\<in>set (rev (dropWhile isWhitespace xs)). isWhitespace c"
    by (simp only: dropWhile_eq_Nil_conv)
  then have "dropWhile isWhitespace xs = []"
    by (metis hd_dropWhile list.set_sel(1) set_rev)
  then show "\<forall>c\<in>set xs. isWhitespace c"
    by (simp only: dropWhile_eq_Nil_conv)
next
  assume "\<forall>c\<in>set xs. isWhitespace c"
  then show "trim xs = []" by (auto simp: trim_eq dest: set_dropWhileD)
qed

lemma find_char_None_iff: "find_char c xs = None \<longleftrightarrow> c \<notin> set xs"
  by (induction xs) auto

lemma find_char_first: "c \<notin> set A \<Longrightarrow> find_char c (A @ c # B) = Some (length A)"
  by (induction A) auto

lemma find_char_takeWhile:
  "c \<in> set xs \<Longrightarrow> find_char c xs = Some (length (takeWhile (\<lambda>x. x \<noteq> c) xs))"
  by (induction xs) auto

lemma remove_cr_append: "remove_cr (A @ c # B) = remove_cr A @ remove_cr [c] @ remove_cr B"
  by (simp add: remove_cr_def)

lemma set_remove_cr: "set (remove_cr A) = set A - {CR}"
  by (auto simp: remove_cr_def)

lemma trim_remove_cr_empty_iff: "trim (remove_cr A) = [] \<longleftrightarrow> trim A = []"
  by (auto simp: trim_empty_iff set_remove_cr isWhitespace_def)

lemma find_separator_eq:
  "find_separator payload =
     (if LF \<in> set payload then Some (length (takeWhile (\<lambda>c. c \<noteq> LF) payload))
      else if CHR ''|'' \<in> set payload
           then Some (length (takeWhile (\<lambda>c. c \<noteq> CHR ''|'') payload))
      else None)"
proof (cases "LF \<in> set payload")
  case True
  then show ?thesis by (simp add: find_separator_def find_char_takeWhile)
next
  case False
  then have n: "find_char LF payload = None" by (simp add: find_char_None_iff)
  show ?thesis
  proof (cases "CHR ''|'' \<in> set payload")
    case True
    with False n show ?thesis by (simp add: find_separator_def find_char_takeWhile)
  next
    case False
    then have "find_char (CHR ''|'') payload = None" by (simp add: find_char_None_iff)
    with False \<open>LF \<notin> set payload\<close> n show ?thesis
      by (simp add: find_separator_def)
  qed
qed

lemma parse_at_separator:
  assumes "find_separator (remove_cr raw) = Some (length P)" and "remove_cr raw = P @ s # Q" and "raw \<noteq> []"
  shows "parseCredentials raw =
     (if trim P = [] then result0\<lparr>error := ''ssid''\<rparr>
      else result0\<lparr>valid := True, ssid := c_str (trim P), password := c_str (trim Q)\<rparr>)"
  using assms by (simp add: parseCredentials_def Let_def)

lemma parse_newline_split:
  assumes "LF \<notin> set A"
  shows "parseCredentials (A @ [LF] @ B) =
     (if trim A = [] then result0\<lparr>error := ''ssid''\<rparr>
      else result0\<lparr>valid := True, ssid := c_str (trim (remove_cr A)),
                    password := c_str (trim (remove_cr B))\<rparr>)"
proof -
  have r: "remove_cr (A @ [LF] @ B) = remove_cr A @ LF # remove_cr B"
    by (simp add: remove_cr_def)
  have "LF \<notin> set (remove_cr A)" using assms by (simp add: set_remove_cr)
  then have "find_separator (remove_cr A @ LF # remove_cr B) = Some (length (remove_cr A))"
    by (simp add: find_separator_def find_char_first)
  then have "find_separator (remove_cr (A @ [LF] @ B)) = Some (length (remove_cr A))"
    by (simp only: r)
  from parse_at_separator [OF this r] show ?thesis
    by (simp add: trim_remove_cr_empty_iff)
qed

lemma parse_pipe_split:
  assumes "LF \<notin> set A" "LF \<notin> set B" "CHR ''|'' \<notin> set A"
  shows "parseCredentials (A @ [CHR ''|''] @ B) =
     (if trim A = [] then result0\<lparr>error := ''ssid''\<rparr>
      else result0\<lparr>valid := True, ssid := c_str (trim (remove_cr A)),
                    password := c_str (trim (remove_cr B))\<rparr>)"
proof -
  have r: "remove_cr (A @ [CHR ''|''] @ B) = remove_cr A @ CHR ''|'' # remove_cr B"
    by (simp add: remove_cr_def)
  have "LF \<notin> set (remove_cr A @ CHR ''|'' # remove_cr B)"
    using assms by (simp add: set_remove_cr)
  then have "find_char LF (remove_cr A @ CHR ''|'' # remove_cr B) = None"
    by (simp add: find_char_None_iff)
  moreover have "CHR ''|'' \<notin> set (remove_cr A)" using assms by (simp add: set_remove_cr)
  ultimately have "find_separator (remove_cr A @ CHR ''|'' # remove_cr B) = Some (length (remove_cr A))"
    by (simp add: find_separator_def find_char_first)
  then have "find_separator (remove_cr (A @ [CHR ''|''] @ B)) = Some (length (remove_cr A))"
    by (simp only: r)
  from parse_at_separator [OF this r] show ?thesis
    by (simp add: trim_remove_cr_empty_iff)
qed

lemma parse_no_separator:
  assumes "raw \<noteq> []" "LF \<notin> set raw" "CHR ''|'' \<notin> set raw"
  shows "parseCredentials raw = result0\<lparr>error := ''formato''\<rparr>"
proof -
  have "find_separator (remove_cr raw) = None"
    using assms by (simp add: find_separator_eq set_remove_cr)
  with assms(1) show ?thesis by (simp add: parseCredentials_def)
qed

lemma parse_blank_ssid_newline:
  assumes "trim A = []"
  shows "parseCredentials (A @ [LF] @ B) = result0\<lparr>error := ''ssid''\<rparr>"
proof (cases "LF \<in> set A")
  case False
  with assms parse_newline_split [of A B] show ?thesis by simp
next
  case True
  then obtain A1 A2 where A: "A = A1 @ LF # A2" and n: "LF \<notin> set A1"
    by (meson split_list_first)
  from assms A have e: "trim A1 = []" by (simp add: trim_empty_iff)
  have "A @ [LF] @ B = A1 @ [LF] @ (A2 @ [LF] @ B)" by (simp add: A)
  then have "parseCredentials (A @ [LF] @ B) = parseCredentials (A1 @ [LF] @ (A2 @ [LF] @ B))"
    by (rule arg_cong)
  also have "\<dots> = result0\<lparr>error := ''ssid''\<rparr>"
    using parse_newline_split [OF n, of "A2 @ [LF] @ B"] e by simp
  finally show ?thesis .
qed

lemma parse_result_shape:
  "if valid (parseCredentials w) then error (parseCredentials w) = []
   else error (parseCredentials w) \<in> {''vacio'', ''formato'', ''ssid''} \<and>
        ssid (parseCredentials w) = [] \<and> password (parseCredentials w) = []"
  by (simp add: parseCredentials_def Let_def result0_def split: option.split)

lemma set_trim: "set (trim xs) \<subseteq> set xs"
proof
  fix c assume "c \<in> set (trim xs)"
  then have "c \<in> set (dropWhile isWhitespace (rev (dropWhile isWhitespace xs)))"
    by (simp add: trim_eq)
  then have "c \<in> set (dropWhile isWhitespace xs)"
    by (auto dest: set_dropWhileD)
  then show "c \<in> set xs" by (rule set_dropWhileD)
qed

lemma remove_cr_id: "CR \<notin> set xs \<Longrightarrow> remove_cr xs = xs"
  by (simp add: remove_cr_def filter_id_conv) blast

lemma c_str_id: "NUL \<notin> set xs \<Longrightarrow> c_str xs = xs"
  by (simp add: c_str_def takeWhile_eq_all_conv) blast

subsection \<open>Payloads with a newline separator\<close>

text \<open>
  Claim C1, as amended. For every payload \<open>A @ [LF] @ B\<close> where \<open>A\<close> holds no newline,
  neither \<open>A\<close> nor \<open>B\<close> holds a NUL byte and \<open>trim A\<close> is not empty, \<open>parseCredentials\<close>
  succeeds; the SSID is \<open>A\<close> with every carriage return removed, then trimmed; the
  password is \<open>B\<close> treated the same way, and may be empty.
\<close>

theorem parse_newline_payload:
  assumes "LF \<notin> set A" and "trim A \<noteq> []"
    and "NUL \<notin> set A" and "NUL \<notin> set B"
  shows "parseCredentials (A @ [LF] @ B) =
           \<lparr>valid = True, ssid = trim (remove_cr A),
              password = trim (remove_cr B), error = []\<rparr>"
proof -
  have "set (trim (remove_cr A)) \<subseteq> set A" "set (trim (remove_cr B)) \<subseteq> set B"
    using set_trim [of "remove_cr A"] set_trim [of "remove_cr B"]
    by (auto simp: set_remove_cr)
  with assms(3,4) have "NUL \<notin> set (trim (remove_cr A))" "NUL \<notin> set (trim (remove_cr B))"
    by blast+
  then have "c_str (trim (remove_cr A)) = trim (remove_cr A)"
    "c_str (trim (remove_cr B)) = trim (remove_cr B)"
    by (simp_all add: c_str_id)
  with parse_newline_split [OF assms(1), of B] assms(2) show ?thesis
    by (simp add: result0_def)
qed

theorem parse_newline_payload_witness:
  "LF \<notin> set ('' home'' @ [CR]) \<and> trim ('' home'' @ [CR]) \<noteq> [] \<and>
   NUL \<notin> set ('' home'' @ [CR]) \<and> NUL \<notin> set [TAB] \<and>
   parseCredentials (('' home'' @ [CR]) @ [LF] @ [TAB]) =
     \<lparr>valid = True, ssid = ''home'', password = [], error = []\<rparr>"
proof -
  have n: "LF \<notin> set ('' home'' @ [CR])" by simp
  have t: "trim ('' home'' @ [CR]) \<noteq> []" by (simp add: trim_eq isWhitespace_def)
  have z: "NUL \<notin> set ('' home'' @ [CR])" "NUL \<notin> set [TAB]" by simp_all
  from parse_newline_payload [OF n t z] n t z show ?thesis
    by (simp add: trim_eq isWhitespace_def remove_cr_def)
qed

text \<open>
  Claim C1 as it is stated, with \<open>A\<close> and \<open>B\<close> any byte strings, fails: a newline inside
  \<open>A\<close> is taken as the separator (here the SSID part is then empty and the parse fails),
  and a carriage return inside \<open>A\<close> or \<open>B\<close> is removed, not only one at the ends.
\<close>

theorem parse_newline_payload_counterexample:
  "trim ([LF] @ ''x'') \<noteq> [] \<and>
   \<not> valid (parseCredentials (([LF] @ ''x'') @ [LF] @ ''pw'')) \<and>
   trim (''a'' @ [CR] @ ''b'') \<noteq> [] \<and>
   ssid (parseCredentials ((''a'' @ [CR] @ ''b'') @ [LF] @ ''pw'')) \<noteq> trim (''a'' @ [CR] @ ''b'') \<and>
   password (parseCredentials (''a'' @ [LF] @ (''p'' @ [CR] @ ''w''))) \<noteq> trim (''p'' @ [CR] @ ''w'')"
  by code_simp

text \<open>
  Where neither part holds a carriage return either, the result is \<open>trim A\<close> and
  \<open>trim B\<close>.
\<close>

lemma parse_newline_plain:
  assumes "LF \<notin> set A" and "trim A \<noteq> []"
    and "CR \<notin> set A" "NUL \<notin> set A" "CR \<notin> set B" "NUL \<notin> set B"
  shows "parseCredentials (A @ [LF] @ B) =
           \<lparr>valid = True, ssid = trim A, password = trim B, error = []\<rparr>"
proof -
  have "NUL \<notin> set (trim A)" "NUL \<notin> set (trim B)"
    using assms(4,6) set_trim by blast+
  then show ?thesis
    using parse_newline_split [OF assms(1), of B] assms(2,3,5)
    by (simp add: result0_def remove_cr_id c_str_id)
qed

text \<open>
  A payload with a NUL byte is outside the statement above. The test of line 75 is made
  on the \<^verbatim>\<open>std::string\<close>, before the conversion through \<^verbatim>\<open>c_str()\<close> of line 81: when
  the SSID part begins with a NUL byte the test passes and the SSID of the result is
  empty.
\<close>

lemma parse_nul_ssid:
  "parseCredentials ([NUL] @ ''abc'' @ [LF] @ ''pw'') =
     \<lparr>valid = True, ssid = [], password = ''pw'', error = []\<rparr>"
  by code_simp

subsection \<open>The choice of the separator\<close>


subsection \<open>The three errors\<close>

text \<open>
  Claim C3. The empty payload fails with \<^verbatim>\<open>vacio\<close>; a non-empty payload with neither a
  newline nor a \<^verbatim>\<open>'|'\<close> fails with \<^verbatim>\<open>formato\<close>; a payload whose part before the separator
  (the newline, or the \<^verbatim>\<open>'|'\<close> when there is no newline) trims to nothing fails with
  \<^verbatim>\<open>ssid\<close>, as \<^verbatim>\<open>"  \n secret"\<close> does. A result that is not valid carries exactly one of
  the three codes and no SSID or password; a valid one carries no code.
\<close>

theorem parse_errors:
  "parseCredentials [] = \<lparr>valid = False, ssid = [], password = [], error = ''vacio''\<rparr> \<and>
   (raw \<noteq> [] \<and> LF \<notin> set raw \<and> CHR ''|'' \<notin> set raw \<longrightarrow>
      parseCredentials raw = \<lparr>valid = False, ssid = [], password = [], error = ''formato''\<rparr>) \<and>
   (trim A = [] \<longrightarrow>
      parseCredentials (A @ [LF] @ B) =
        \<lparr>valid = False, ssid = [], password = [], error = ''ssid''\<rparr>) \<and>
   (trim P = [] \<and> LF \<notin> set (P @ ''|'' @ Q) \<longrightarrow>
      parseCredentials (P @ ''|'' @ Q) =
        \<lparr>valid = False, ssid = [], password = [], error = ''ssid''\<rparr>) \<and>
   parseCredentials (''  '' @ [LF] @ '' secret'') =
     \<lparr>valid = False, ssid = [], password = [], error = ''ssid''\<rparr> \<and>
   (if valid (parseCredentials w) then error (parseCredentials w) = []
    else error (parseCredentials w) \<in> {''vacio'', ''formato'', ''ssid''} \<and>
         ssid (parseCredentials w) = [] \<and> password (parseCredentials w) = [])"
proof -
  have 1: "parseCredentials [] = \<lparr>valid = False, ssid = [], password = [], error = ''vacio''\<rparr>"
    by (simp add: parseCredentials_def result0_def)
  have 2: "raw \<noteq> [] \<and> LF \<notin> set raw \<and> CHR ''|'' \<notin> set raw \<longrightarrow>
      parseCredentials raw = \<lparr>valid = False, ssid = [], password = [], error = ''formato''\<rparr>"
    by (simp add: parse_no_separator result0_def)
  have 3: "trim A = [] \<longrightarrow>
      parseCredentials (A @ [LF] @ B) =
        \<lparr>valid = False, ssid = [], password = [], error = ''ssid''\<rparr>"
    using parse_blank_ssid_newline [of A B] by (simp add: result0_def)
  have 4: "trim P = [] \<and> LF \<notin> set (P @ ''|'' @ Q) \<longrightarrow>
      parseCredentials (P @ ''|'' @ Q) =
        \<lparr>valid = False, ssid = [], password = [], error = ''ssid''\<rparr>"
  proof
    assume h: "trim P = [] \<and> LF \<notin> set (P @ ''|'' @ Q)"
    then have "CHR ''|'' \<notin> set P" by (auto simp: trim_empty_iff isWhitespace_def)
    with h parse_pipe_split [of P Q] show "parseCredentials (P @ ''|'' @ Q) =
        \<lparr>valid = False, ssid = [], password = [], error = ''ssid''\<rparr>"
      by (simp add: result0_def)
  qed
  have 5: "parseCredentials (''  '' @ [LF] @ '' secret'') =
     \<lparr>valid = False, ssid = [], password = [], error = ''ssid''\<rparr>"
    by code_simp
  have 6: "if valid (parseCredentials w) then error (parseCredentials w) = []
    else error (parseCredentials w) \<in> {''vacio'', ''formato'', ''ssid''} \<and>
         ssid (parseCredentials w) = [] \<and> password (parseCredentials w) = []"
    by (rule parse_result_shape)
  from 1 2 3 4 5 6 show ?thesis by blast
qed

theorem parse_errors_witness:
  "''abc'' \<noteq> [] \<and> LF \<notin> set ''abc'' \<and> CHR ''|'' \<notin> set ''abc'' \<and>
   parseCredentials ''abc'' = \<lparr>valid = False, ssid = [], password = [], error = ''formato''\<rparr> \<and>
   trim [TAB] = [] \<and>
   parseCredentials ([TAB] @ [LF] @ ''pw'') =
     \<lparr>valid = False, ssid = [], password = [], error = ''ssid''\<rparr> \<and>
   trim '' '' = [] \<and> LF \<notin> set ('' '' @ ''|'' @ ''pw'') \<and>
   parseCredentials ('' '' @ ''|'' @ ''pw'') =
     \<lparr>valid = False, ssid = [], password = [], error = ''ssid''\<rparr>"
  using parse_errors [of "''abc''" "[TAB]" "''pw''" "'' ''" "''pw''" "[]"]
  by (simp add: trim_eq isWhitespace_def)

section \<open>Properties of the session\<close>

subsection \<open>What the helpers change\<close>

lemma calls_fields [simp]:
  "g_server (calls cs s) = g_server s"
  "g_characteristic (calls cs s) = g_characteristic s"
  "g_advertising (calls cs s) = g_advertising s"
  "g_callback (calls cs s) = g_callback s"
  "g_deviceId (calls cs s) = g_deviceId s"
  "g_initialized (calls cs s) = g_initialized s"
  "g_sessionActive (calls cs s) = g_sessionActive s"
  "g_centralConnected (calls cs s) = g_centralConnected s"
  "g_connId (calls cs s) = g_connId s"
  "g_restartAdvertising (calls cs s) = g_restartAdvertising s"
  "stack_advertising (calls cs s) = stack_advertising s"
  "ble_calls (calls cs s) = ble_calls s @ cs"
  by (simp_all add: calls_def)

lemma notify_eq:
  "notify message s =
     calls (if g_characteristic s
            then SetValue (c_str message) # (if g_centralConnected s then [Notify] else [])
            else []) s"
  by (simp add: notify_def calls_def Let_def)

lemma configureAdvertising_eq:
  "configureAdvertising s =
     s\<lparr>g_advertising := g_advertising s \<or> stack_advertising s,
       ble_calls := ble_calls s @
         (if g_advertising s \<or> stack_advertising s
          then [SetAdvertisementData (c_str (g_deviceId s)) kServiceUuid,
                SetScanResponse False, SetMinPreferred 0x06, SetMaxPreferred 0x12]
          else [])\<rparr>"
  by (cases "g_advertising s"; cases "stack_advertising s")
     (simp_all add: configureAdvertising_def calls_def Let_def)

subsection \<open>Two facts about every history\<close>

lemma session_inv_step: "session_inv s \<Longrightarrow> session_inv (step e s)"
  by (cases e)
     (auto simp: session_inv_def begin_session_def ensureInitialized_def startBle_def
        stopBle_def loop_def notifyStatus_def onConnect_def onDisconnect_def onWrite_def
        notify_eq configureAdvertising_eq Let_def split: option.splits)

lemma session_inv_run: "session_inv s \<Longrightarrow> session_inv (run evs s)"
  by (induction evs arbitrary: s) (simp_all add: session_inv_step)

lemma session_inv_initial: "session_inv initial"
  by (simp add: session_inv_def initial_def)

lemma session_inv_reachable: "session_inv (run evs initial)"
  by (rule session_inv_run [OF session_inv_initial])

lemmas session_defs =
  begin_session_def ensureInitialized_def startBle_def stopBle_def loop_def notifyStatus_def
  onConnect_def onDisconnect_def onWrite_def notify_eq configureAdvertising_eq calls_def
  initial_def isActive_def kInvalidConnId_def kServiceUuid_def kCharacteristicUuid_def
  c_str_def Let_def

subsection \<open>Restart of advertising after a disconnect\<close>

lemma loop_idle: "\<not> g_restartAdvertising s \<Longrightarrow> (loop ^^ n) s = s"
  by (induction n) (simp_all add: loop_def)

text \<open>
  Claim C4. Let \<open>s\<close> be the session after any history, with the session active. A
  disconnect event sets the pending-restart flag; the next \<open>loop\<close> clears the flag and
  calls \<^verbatim>\<open>g_advertising->start()\<close> once, changing nothing else; any number of further \<open>loop\<close>
  calls change nothing, so they start nothing; the session is still active, so another
  disconnect sets the flag again and the \<open>loop\<close> after it starts advertising once more.
\<close>

theorem disconnect_restart:
  assumes "s = run evs initial" and "isActive s"
  defines "s1 \<equiv> onDisconnect s" and "s2 \<equiv> loop (onDisconnect s)"
  shows "g_restartAdvertising s1 \<and>
         s2 = s1\<lparr>g_restartAdvertising := False, ble_calls := ble_calls s1 @ [AdvertisingStart]\<rparr> \<and>
         (loop ^^ n) s2 = s2 \<and>
         isActive s2 \<and> g_restartAdvertising (onDisconnect s2) \<and>
         ble_calls (loop (onDisconnect s2)) = ble_calls s2 @ [AdvertisingStart]"
proof -
  have "session_inv s" using assms(1) by (simp add: session_inv_reachable)
  with assms(2) have a: "g_sessionActive s" "g_advertising s"
    by (simp_all add: session_inv_def isActive_def)
  then have 1: "g_restartAdvertising s1" by (simp add: s1_def onDisconnect_def)
  from a have 2: "s2 = s1\<lparr>g_restartAdvertising := False, ble_calls := ble_calls s1 @ [AdvertisingStart]\<rparr>"
    by (simp add: s1_def s2_def onDisconnect_def loop_def calls_def)
  from 2 have "\<not> g_restartAdvertising s2" by simp
  then have 3: "(loop ^^ n) s2 = s2" by (rule loop_idle)
  from a 2 have 4: "isActive s2" "g_advertising s2"
    by (simp_all add: isActive_def s1_def onDisconnect_def)
  then have 5: "g_restartAdvertising (onDisconnect s2)"
    by (simp add: onDisconnect_def isActive_def)
  from 4 have 6: "ble_calls (loop (onDisconnect s2)) = ble_calls s2 @ [AdvertisingStart]"
    by (simp add: onDisconnect_def isActive_def loop_def)
  from 1 2 3 4 5 6 show ?thesis by simp
qed

theorem disconnect_restart_witness:
  "isActive (run [Begin ''esp'' (Some 0), StartBle, OnConnect 3] initial) \<and>
   g_restartAdvertising (onDisconnect (run [Begin ''esp'' (Some 0), StartBle, OnConnect 3] initial)) \<and>
   (loop ^^ 2) (loop (onDisconnect (run [Begin ''esp'' (Some 0), StartBle, OnConnect 3] initial))) =
     loop (onDisconnect (run [Begin ''esp'' (Some 0), StartBle, OnConnect 3] initial))"
proof -
  have a: "isActive (run [Begin ''esp'' (Some 0), StartBle, OnConnect 3] initial)"
    by (simp add: session_defs)
  from disconnect_restart [OF refl a, of 2] a show ?thesis by blast
qed

subsection \<open>Start and stop\<close>

text \<open>
  Claim C5. In any session state, connected or not: when \<open>startBle\<close> returns true,
  \<open>isActive\<close> is true afterwards; after \<open>stopBle\<close> on an initialized session, \<open>isActive\<close>
  is false.
\<close>

theorem isActive_after_start_stop:
  "(fst (startBle s) \<longrightarrow> isActive (snd (startBle s))) \<and>
   (g_initialized s \<longrightarrow> \<not> isActive (stopBle s))"
  by (simp add: startBle_def stopBle_def isActive_def notify_eq Let_def)

theorem isActive_after_start_stop_witness:
  "fst (startBle (run [Begin ''esp'' (Some 0), OnConnect 3] initial)) \<and>
   isActive (snd (startBle (run [Begin ''esp'' (Some 0), OnConnect 3] initial))) \<and>
   g_centralConnected (run [Begin ''esp'' (Some 0), StartBle, OnConnect 3] initial) \<and>
   isActive (run [Begin ''esp'' (Some 0), StartBle, OnConnect 3] initial) \<and>
   g_initialized (run [Begin ''esp'' (Some 0), StartBle, OnConnect 3] initial) \<and>
   \<not> isActive (stopBle (run [Begin ''esp'' (Some 0), StartBle, OnConnect 3] initial))"
proof -
  have a: "fst (startBle (run [Begin ''esp'' (Some 0), OnConnect 3] initial))"
    by (simp add: session_defs)
  have b: "g_centralConnected (run [Begin ''esp'' (Some 0), StartBle, OnConnect 3] initial)"
    "isActive (run [Begin ''esp'' (Some 0), StartBle, OnConnect 3] initial)"
    "g_initialized (run [Begin ''esp'' (Some 0), StartBle, OnConnect 3] initial)"
    by (simp_all add: session_defs)
  from a b isActive_after_start_stop [of "run [Begin ''esp'' (Some 0), OnConnect 3] initial"]
    isActive_after_start_stop [of "run [Begin ''esp'' (Some 0), StartBle, OnConnect 3] initial"]
  show ?thesis by blast
qed

text \<open>
  Claim C9. When the session is not initialized, or \<^verbatim>\<open>g_advertising\<close> is null, \<open>startBle\<close>
  returns false and leaves the session as it was, the calls made into the stack
  included: no flag changes, nothing is notified, advertising is not started.
\<close>

theorem startBle_unavailable:
  assumes "\<not> g_initialized s \<or> \<not> g_advertising s"
  shows "startBle s = (False, s)"
  using assms by (auto simp: startBle_def)

theorem startBle_unavailable_witness:
  "g_initialized (run [StackAdvertising False, Begin ''esp'' (Some 0)] initial) \<and>
   \<not> g_advertising (run [StackAdvertising False, Begin ''esp'' (Some 0)] initial) \<and>
   startBle (run [StackAdvertising False, Begin ''esp'' (Some 0)] initial) =
     (False, run [StackAdvertising False, Begin ''esp'' (Some 0)] initial) \<and>
   startBle initial = (False, initial)"
proof -
  have a: "g_initialized (run [StackAdvertising False, Begin ''esp'' (Some 0)] initial)"
    "\<not> g_advertising (run [StackAdvertising False, Begin ''esp'' (Some 0)] initial)"
    by (simp_all add: session_defs)
  have b: "\<not> g_initialized initial" by (simp add: initial_def)
  from a startBle_unavailable [of "run [StackAdvertising False, Begin ''esp'' (Some 0)] initial"]
    b startBle_unavailable [of initial]
  show ?thesis by blast
qed

subsection \<open>A write with no callback registered\<close>

text \<open>
  Claim C10. When the written payload parses and \<^verbatim>\<open>g_callback\<close> is empty, \<open>onWrite\<close> does
  what \<open>notify\<close> of \<^verbatim>\<open>credenciales\<close> does and nothing more: the value is set, the peer is
  notified when one is connected, and no callback is invoked.
\<close>

theorem onWrite_without_callback:
  assumes "valid (parseCredentials written)" and "g_callback s = None"
  shows "onWrite written s = notify ''credenciales'' s \<and>
         onWrite written s =
           s\<lparr>ble_calls := ble_calls s @
               (if g_characteristic s
                then SetValue ''credenciales'' # (if g_centralConnected s then [Notify] else [])
                else [])\<rparr>"
  using assms by (simp add: onWrite_def notify_eq calls_def c_str_def Let_def)

theorem onWrite_without_callback_witness:
  "valid (parseCredentials ''home|hunter2'') \<and>
   g_callback (run [Begin ''esp'' None, StartBle, OnConnect 3] initial) = None \<and>
   ble_calls (onWrite ''home|hunter2'' (run [Begin ''esp'' None, StartBle, OnConnect 3] initial)) =
     ble_calls (run [Begin ''esp'' None, StartBle, OnConnect 3] initial) @
       [SetValue ''credenciales'', Notify]"
proof -
  have a: "valid (parseCredentials ''home|hunter2'')" by code_simp
  have b: "g_callback (run [Begin ''esp'' None, StartBle, OnConnect 3] initial) = None"
    by (simp add: session_defs)
  have c: "g_characteristic (run [Begin ''esp'' None, StartBle, OnConnect 3] initial)"
    "g_centralConnected (run [Begin ''esp'' None, StartBle, OnConnect 3] initial)"
    by (simp_all add: session_defs)
  from onWrite_without_callback [OF a b, THEN conjunct2] c
  have "ble_calls (onWrite ''home|hunter2'' (run [Begin ''esp'' None, StartBle, OnConnect 3] initial)) =
     ble_calls (run [Begin ''esp'' None, StartBle, OnConnect 3] initial) @
       [SetValue ''credenciales'', Notify]"
    by (simp del: run.simps)
  with a b show ?thesis by blast
qed

text \<open>With a callback registered, the same write invokes it after the notification.\<close>

lemma onWrite_with_callback:
  assumes "valid (parseCredentials written)" and "g_callback s = Some f"
  shows "onWrite written s =
           calls [InvokeCallback f (ssid (parseCredentials written))
                    (password (parseCredentials written))] (notify ''credenciales'' s)"
  using assms by (simp add: onWrite_def Let_def notify_eq)

subsection \<open>A second begin\<close>

text \<open>
  Claim C6, as amended. On an initialized session, \<open>begin\<close> stores the callback it is given
  in place of the one registered before, stores the device id, takes the advertising
  object from the stack if it had none, configures the advertising payload when it has
  one, and sets the status \<^verbatim>\<open>inactivo\<close> (notifying a connected peer). It makes no other
  call into the stack, so no server, service or characteristic is created, and every
  other field of the session is as it was.
\<close>

theorem begin_again:
  assumes "g_initialized s"
  shows "begin_session deviceId callback s =
     s\<lparr>g_callback := callback, g_deviceId := deviceId,
       g_advertising := g_advertising s \<or> stack_advertising s,
       ble_calls := ble_calls s @
         (if g_advertising s \<or> stack_advertising s
          then [SetAdvertisementData (c_str deviceId) kServiceUuid,
                SetScanResponse False, SetMinPreferred 0x06, SetMaxPreferred 0x12]
          else []) @
         (if g_characteristic s
          then SetValue ''inactivo'' # (if g_centralConnected s then [Notify] else [])
          else [])\<rparr>"
  using assms
  by (simp add: begin_session_def ensureInitialized_def configureAdvertising_eq notify_eq
        calls_def c_str_def)

theorem begin_again_witness:
  "g_initialized (run [Begin ''esp1'' (Some 0), StartBle] initial) \<and>
   g_callback (begin_session ''esp2'' (Some 0) (run [Begin ''esp1'' (Some 0), StartBle] initial)) = Some 0 \<and>
   g_deviceId (begin_session ''esp2'' (Some 0) (run [Begin ''esp1'' (Some 0), StartBle] initial)) = ''esp2'' \<and>
   isActive (begin_session ''esp2'' (Some 0) (run [Begin ''esp1'' (Some 0), StartBle] initial))"
proof -
  have a: "g_initialized (run [Begin ''esp1'' (Some 0), StartBle] initial)"
    by (simp add: session_defs)
  have b: "isActive (run [Begin ''esp1'' (Some 0), StartBle] initial)"
    by (simp add: session_defs)
  have "begin_session ''esp2'' (Some 0) (run [Begin ''esp1'' (Some 0), StartBle] initial) =
     (run [Begin ''esp1'' (Some 0), StartBle] initial)
     \<lparr>g_callback := Some 0, g_deviceId := ''esp2'',
       g_advertising := g_advertising (run [Begin ''esp1'' (Some 0), StartBle] initial) \<or> stack_advertising (run [Begin ''esp1'' (Some 0), StartBle] initial),
       ble_calls := ble_calls (run [Begin ''esp1'' (Some 0), StartBle] initial) @
         (if g_advertising (run [Begin ''esp1'' (Some 0), StartBle] initial) \<or> stack_advertising (run [Begin ''esp1'' (Some 0), StartBle] initial)
          then [SetAdvertisementData (c_str ''esp2'') kServiceUuid,
                SetScanResponse False, SetMinPreferred 0x06, SetMaxPreferred 0x12]
          else []) @
         (if g_characteristic (run [Begin ''esp1'' (Some 0), StartBle] initial)
          then SetValue ''inactivo'' # (if g_centralConnected (run [Begin ''esp1'' (Some 0), StartBle] initial) then [Notify] else [])
          else [])\<rparr>"
    by (rule begin_again [OF a])
  then have "g_callback (begin_session ''esp2'' (Some 0) (run [Begin ''esp1'' (Some 0), StartBle] initial)) = Some 0"
    "g_deviceId (begin_session ''esp2'' (Some 0) (run [Begin ''esp1'' (Some 0), StartBle] initial)) = ''esp2''"
    "isActive (begin_session ''esp2'' (Some 0) (run [Begin ''esp1'' (Some 0), StartBle] initial)) =
     isActive (run [Begin ''esp1'' (Some 0), StartBle] initial)"
    by (simp_all add: isActive_def del: run.simps)
  with a b show ?thesis by blast
qed

text \<open>
  Claim C6 as it is stated: the callback registered before is kept and nothing but the
  device id and the advertising payload changes. But a second \<open>begin\<close> with an empty
  callback leaves none registered, one with another callback replaces the first, and
  the status of an active session is set back to \<^verbatim>\<open>inactivo\<close>.
\<close>

theorem begin_again_counterexample:
  "g_callback (run [Begin ''esp1'' (Some 0)] initial) = Some 0 \<and>
   g_callback (run [Begin ''esp1'' (Some 0), Begin ''esp2'' None] initial) = None \<and>
   g_callback (run [Begin ''esp1'' (Some 0), Begin ''esp2'' (Some 1)] initial) = Some 1 \<and>
   isActive (run [Begin ''esp1'' (Some 0), StartBle, Begin ''esp2'' (Some 0)] initial) \<and>
   last (ble_calls (run [Begin ''esp1'' (Some 0), StartBle] initial)) = SetValue ''activo'' \<and>
   last (ble_calls (run [Begin ''esp1'' (Some 0), StartBle, Begin ''esp2'' (Some 0)] initial)) =
     SetValue ''inactivo''"
  by (simp add: session_defs)

subsection \<open>Stopping while a central is connected\<close>

text \<open>
  Claim C7, as amended. After any history, on an initialized session with a central
  connected under a handle other than \<open>kInvalidConnId\<close>, \<open>stopBle\<close> stops advertising when
  there is an advertising object, asks the stack to disconnect the stored handle, clears
  \<^verbatim>\<open>g_sessionActive\<close> and the pending restart, then sets the status \<^verbatim>\<open>inactivo\<close> and notifies
  it. It leaves \<^verbatim>\<open>g_centralConnected\<close> and \<^verbatim>\<open>g_connId\<close> as they were: the handle is
  invalidated by \<open>onDisconnect\<close>, when the stack reports the disconnection, and that
  handler then schedules no restart.
\<close>

theorem stopBle_connected:
  assumes "s = run evs initial" and "g_initialized s" and "g_centralConnected s"
    and "g_connId s \<noteq> kInvalidConnId"
  shows "stopBle s =
           s\<lparr>g_sessionActive := False, g_restartAdvertising := False,
             ble_calls := ble_calls s @ (if g_advertising s then [AdvertisingStop] else []) @
               [ServerDisconnect (g_connId s), SetValue ''inactivo'', Notify]\<rparr> \<and>
         onDisconnect (stopBle s) =
           (stopBle s)\<lparr>g_centralConnected := False, g_connId := kInvalidConnId\<rparr>"
proof -
  have "session_inv s" using assms(1) by (simp add: session_inv_reachable)
  with assms(2) have "g_server s" "g_characteristic s" by (simp_all add: session_inv_def)
  with assms(2,3,4) have 1: "stopBle s =
           s\<lparr>g_sessionActive := False, g_restartAdvertising := False,
             ble_calls := ble_calls s @ (if g_advertising s then [AdvertisingStop] else []) @
               [ServerDisconnect (g_connId s), SetValue ''inactivo'', Notify]\<rparr>"
    by (simp add: stopBle_def notify_eq calls_def c_str_def Let_def)
  then have "\<not> g_sessionActive (stopBle s)" by simp
  then have 2: "onDisconnect (stopBle s) =
           (stopBle s)\<lparr>g_centralConnected := False, g_connId := kInvalidConnId\<rparr>"
    by (simp add: onDisconnect_def)
  from 1 2 show ?thesis by (rule conjI)
qed

theorem stopBle_connected_witness:
  "g_initialized (run [Begin ''esp'' (Some 0), StartBle, OnConnect 3] initial) \<and>
   g_centralConnected (run [Begin ''esp'' (Some 0), StartBle, OnConnect 3] initial) \<and>
   g_connId (run [Begin ''esp'' (Some 0), StartBle, OnConnect 3] initial) \<noteq> kInvalidConnId \<and>
   g_connId (onDisconnect (stopBle (run [Begin ''esp'' (Some 0), StartBle, OnConnect 3] initial))) =
     kInvalidConnId"
proof -
  have a: "g_initialized (run [Begin ''esp'' (Some 0), StartBle, OnConnect 3] initial)"
    "g_centralConnected (run [Begin ''esp'' (Some 0), StartBle, OnConnect 3] initial)"
    "g_connId (run [Begin ''esp'' (Some 0), StartBle, OnConnect 3] initial) \<noteq> kInvalidConnId"
    by (simp_all add: session_defs)
  from stopBle_connected [OF refl a, THEN conjunct2]
  have "g_connId (onDisconnect (stopBle (run [Begin ''esp'' (Some 0), StartBle, OnConnect 3] initial))) =
     kInvalidConnId"
    by (simp del: run.simps)
  with a show ?thesis by blast
qed

text \<open>
  Claim C7 as it is stated: \<open>stopBle\<close> invalidates the handle before it sets the status. But
  when \<open>stopBle\<close> returns, the handle is still the one stored at the connection.
\<close>

theorem stopBle_connected_counterexample:
  "g_centralConnected (run [Begin ''esp'' (Some 0), StartBle, OnConnect 3] initial) \<and>
   g_connId (run [Begin ''esp'' (Some 0), StartBle, OnConnect 3] initial) = 3 \<and>
   g_connId (stopBle (run [Begin ''esp'' (Some 0), StartBle, OnConnect 3] initial)) = 3 \<and>
   g_connId (stopBle (run [Begin ''esp'' (Some 0), StartBle, OnConnect 3] initial)) \<noteq> kInvalidConnId \<and>
   g_centralConnected (stopBle (run [Begin ''esp'' (Some 0), StartBle, OnConnect 3] initial))"
  by (simp add: session_defs)

subsection \<open>A connected central has a handle\<close>

lemma connected_inv_step:
  assumes "e \<noteq> OnConnect kInvalidConnId"
    and "g_centralConnected s \<longrightarrow> g_connId s \<noteq> kInvalidConnId"
  shows "g_centralConnected (step e s) \<longrightarrow> g_connId (step e s) \<noteq> kInvalidConnId"
  using assms
  by (cases e)
     (auto simp: begin_session_def ensureInitialized_def startBle_def
        stopBle_def loop_def notifyStatus_def onConnect_def onDisconnect_def onWrite_def
        notify_eq configureAdvertising_eq Let_def split: option.splits)

lemma connected_inv_run:
  assumes "connect_ids_valid evs"
    and "g_centralConnected s \<longrightarrow> g_connId s \<noteq> kInvalidConnId"
  shows "g_centralConnected (run evs s) \<longrightarrow> g_connId (run evs s) \<noteq> kInvalidConnId"
  using assms
proof (induction evs arbitrary: s)
  case Nil
  then show ?case by simp
next
  case (Cons e evs)
  from Cons.prems(1) have e: "e \<noteq> OnConnect kInvalidConnId" and r: "connect_ids_valid evs"
    by (auto simp: connect_ids_valid_def)
  from connected_inv_step [OF e Cons.prems(2)] Cons.IH [OF r] show ?case by simp
qed

text \<open>
  Claim C8, as amended. After any history in which no connect event reported the
  connection id \<^verbatim>\<open>0xFFFF\<close>, a connected central implies that \<^verbatim>\<open>g_connId\<close> is not
  \<open>kInvalidConnId\<close>.
\<close>

theorem connected_has_handle:
  assumes "connect_ids_valid evs" and "g_centralConnected (run evs initial)"
  shows "g_connId (run evs initial) \<noteq> kInvalidConnId"
  using connected_inv_run [OF assms(1), of initial] assms(2) by (simp add: initial_def)

theorem connected_has_handle_witness:
  "connect_ids_valid [Begin ''esp'' (Some 0), StartBle, OnConnect 3] \<and>
   g_centralConnected (run [Begin ''esp'' (Some 0), StartBle, OnConnect 3] initial) \<and>
   g_connId (run [Begin ''esp'' (Some 0), StartBle, OnConnect 3] initial) \<noteq> kInvalidConnId"
proof -
  have a: "connect_ids_valid [Begin ''esp'' (Some 0), StartBle, OnConnect 3]"
    by (simp add: connect_ids_valid_def kInvalidConnId_def)
  have b: "g_centralConnected (run [Begin ''esp'' (Some 0), StartBle, OnConnect 3] initial)"
    by (simp add: session_defs)
  from connected_has_handle [OF a b] a b show ?thesis by blast
qed

text \<open>
  Claim C8 as it is stated, for every history, fails: \<open>onConnect\<close> stores whatever
  \<^verbatim>\<open>getConnId()\<close> returns, and \<^verbatim>\<open>0xFFFF\<close> is a value of its type.
\<close>

theorem connected_has_handle_counterexample:
  "g_centralConnected (run [Begin ''esp'' (Some 0), StartBle, OnConnect 0xFFFF] initial) \<and>
   g_connId (run [Begin ''esp'' (Some 0), StartBle, OnConnect 0xFFFF] initial) = kInvalidConnId"
  by (simp add: session_defs)

end
